theory Spec2Isabelle
  imports Complex_Main "HOL-Library.AList"
begin

section \<open>Strings\<close>

text \<open>
  A JavaScript string is modelled as a \<^typ>\<open>string\<close>: a list of 8-bit characters, read
  as the UTF-16 code units U+0000 to U+00FF. \<open>length\<close> is the \<open>.length\<close> of the source.
\<close>

definition isWhiteSpace :: "char \<Rightarrow> bool" where
  \<comment> \<open>the white space and line terminators that \<open>String.prototype.trim\<close> strips, below U+0100\<close>
  "isWhiteSpace c =
     (c = CHR 0x09 \<or> c = CHR 0x0A \<or> c = CHR 0x0B \<or> c = CHR 0x0C \<or> c = CHR 0x0D
      \<or> c = CHR 0x20 \<or> c = CHR 0xA0)"

definition trim :: "string \<Rightarrow> string" where
  "trim s = rev (dropWhile isWhiteSpace (rev (dropWhile isWhiteSpace s)))"

definition toLowerChar :: "char \<Rightarrow> char" where
  \<comment> \<open>A..Z and the Latin-1 capitals U+00C0..U+00DE (without the sign U+00D7) move up by 32\<close>
  "toLowerChar c =
     (let n = of_char c :: nat in
      if (65 \<le> n \<and> n \<le> 90) \<or> (192 \<le> n \<and> n \<le> 222 \<and> n \<noteq> 215)
      then char_of (n + 32) else c)"

definition toLowerCase :: "string \<Rightarrow> string" where
  "toLowerCase s = map toLowerChar s"

fun startsWith :: "string \<Rightarrow> string \<Rightarrow> bool" where
  "startsWith s [] = True"
| "startsWith [] (c # cs) = False"
| "startsWith (x # xs) (c # cs) = (x = c \<and> startsWith xs cs)"

fun includesStr :: "string \<Rightarrow> string \<Rightarrow> bool" where
  "includesStr [] sub = startsWith [] sub"
| "includesStr (x # xs) sub = (startsWith (x # xs) sub \<or> includesStr xs sub)"

fun splitStr :: "char \<Rightarrow> string \<Rightarrow> string list" where
  \<comment> \<open>\<open>s.split(sep)\<close> for a separator of one character: never empty, \<open>''''\<close> gives \<open>[''''])\<close>\<close>
  "splitStr sep [] = [[]]"
| "splitStr sep (c # cs) =
     (if c = sep then [] # splitStr sep cs
      else (case splitStr sep cs of [] \<Rightarrow> [[c]] | w # ws \<Rightarrow> (c # w) # ws))"

section \<open>Commit records\<close>

record githubUser =
  login :: string
  avatar_url :: string

text \<open>
  \<open>CommitData\<close>: the nested objects \<open>commit.author\<close> and \<open>commit.message\<close> are flattened
  into fields named after their paths. \<open>commit_author_date\<close> is the instant that
  \<open>new Date(commit.commit.author.date)\<close> denotes, in milliseconds since the epoch. The optional
  \<open>author\<close> object is an option.
\<close>

record commitData =
  sha :: string
  commit_author_name :: string
  commit_author_email :: string
  commit_author_date :: int
  commit_message :: string
  author :: "githubUser option"

section \<open>Commit quality analysis (CommitQualityAnalysis.tsx)\<close>

record commitPatterns =
  fix_n :: nat
  feat_n :: nat
  refactor_n :: nat
  docs_n :: nat
  test_n :: nat
  style_n :: nat
  other_n :: nat

text \<open>The variables that the \<open>forEach\<close> loop of \<open>analyzeCommitQuality\<close> updates.\<close>

record tally =
  commitsWithDescription_acc :: nat
  emptyMessages_acc :: nat
  shortMessages_acc :: nat
  totalMessageLength_acc :: nat
  commitPatterns_acc :: commitPatterns

record qualityMetrics =
  totalCommits :: nat
  commitsWithDescription :: nat
  emptyMessages :: nat
  shortMessages :: nat
  averageMessageLength :: int
  hasReadme :: bool
  commitPatterns :: commitPatterns

definition categorize :: "string \<Rightarrow> commitPatterns \<Rightarrow> commitPatterns" where
  "categorize lowerMessage p =
     (if includesStr lowerMessage ''fix'' \<or> includesStr lowerMessage ''bug''
         \<or> includesStr lowerMessage ''patch''
      then p\<lparr>fix_n := fix_n p + 1\<rparr>
      else if includesStr lowerMessage ''feat'' \<or> includesStr lowerMessage ''add''
         \<or> includesStr lowerMessage ''new''
      then p\<lparr>feat_n := feat_n p + 1\<rparr>
      else if includesStr lowerMessage ''refactor'' \<or> includesStr lowerMessage ''cleanup''
         \<or> includesStr lowerMessage ''reorganize''
      then p\<lparr>refactor_n := refactor_n p + 1\<rparr>
      else if includesStr lowerMessage ''doc'' \<or> includesStr lowerMessage ''readme''
         \<or> includesStr lowerMessage ''comment''
      then p\<lparr>docs_n := docs_n p + 1\<rparr>
      else if includesStr lowerMessage ''test'' \<or> includesStr lowerMessage ''spec''
      then p\<lparr>test_n := test_n p + 1\<rparr>
      else if includesStr lowerMessage ''style'' \<or> includesStr lowerMessage ''format''
         \<or> includesStr lowerMessage ''lint''
      then p\<lparr>style_n := style_n p + 1\<rparr>
      else p\<lparr>other_n := other_n p + 1\<rparr>)"

definition analyzeCommit :: "commitData \<Rightarrow> tally \<Rightarrow> tally" where
  \<comment> \<open>the body of the \<open>forEach\<close> callback\<close>
  "analyzeCommit c t =
     (let message = trim (commit_message c);
          lines = filter (\<lambda>line. trim line \<noteq> []) (splitStr CHR 0x0A message);
          t1 = t\<lparr>totalMessageLength_acc := totalMessageLength_acc t + length message\<rparr>;
          t2 = (if message = [] then t1\<lparr>emptyMessages_acc := emptyMessages_acc t1 + 1\<rparr>
                else if length message < 10
                then t1\<lparr>shortMessages_acc := shortMessages_acc t1 + 1\<rparr>
                else t1);
          t3 = (if length lines > 1
                then t2\<lparr>commitsWithDescription_acc := commitsWithDescription_acc t2 + 1\<rparr>
                else t2);
          lowerMessage = toLowerCase message
      in t3\<lparr>commitPatterns_acc := categorize lowerMessage (commitPatterns_acc t3)\<rparr>)"

definition initialTally :: tally where
  "initialTally =
     \<lparr>commitsWithDescription_acc = 0, emptyMessages_acc = 0, shortMessages_acc = 0,
      totalMessageLength_acc = 0,
      commitPatterns_acc = \<lparr>fix_n = 0, feat_n = 0, refactor_n = 0, docs_n = 0, test_n = 0,
                            style_n = 0, other_n = 0\<rparr>\<rparr>"

definition mathRound :: "rat \<Rightarrow> int" where
  \<comment> \<open>\<open>Math.round\<close>: the nearest integer, a half going up\<close>
  "mathRound x = \<lfloor>x + 1 / 2\<rfloor>"

text \<open>
  Lines 99 to 162 of \<open>analyzeCommitQuality\<close>: the metrics of a commit list, given whether the
  README request succeeded. JavaScript numbers are modelled by exact rationals; the rounding
  errors of double-precision arithmetic are outside the model.
\<close>

definition analyzeCommitQuality :: "bool \<Rightarrow> commitData list \<Rightarrow> qualityMetrics" where
  "analyzeCommitQuality readme commits =
     (let total = length commits;
          t = fold analyzeCommit commits initialTally
      in \<lparr>totalCommits = total,
          commitsWithDescription = commitsWithDescription_acc t,
          emptyMessages = emptyMessages_acc t,
          shortMessages = shortMessages_acc t,
          averageMessageLength =
            (if total > 0 then mathRound (of_nat (totalMessageLength_acc t) / of_nat total)
             else 0),
          hasReadme = readme,
          commitPatterns = commitPatterns_acc t\<rparr>)"

definition qualityScore :: "qualityMetrics \<Rightarrow> int" where
  "qualityScore metrics =
     mathRound
       ((of_nat (commitsWithDescription metrics) / of_nat (max (totalCommits metrics) 1)) * 40
        + ((of_nat (totalCommits metrics) - of_nat (emptyMessages metrics)
              - of_nat (shortMessages metrics))
            / of_nat (max (totalCommits metrics) 1)) * 30
        + (if hasReadme metrics then 20 else 0)
        + (if averageMessageLength metrics > 20 then 10 else 0))"

section \<open>Repository locator (extractRepoInfo)\<close>

text \<open>
  \<open>extractRepoInfo\<close> stands three times in the source (CommitAnalytics.tsx,
  CommitQualityAnalysis.tsx and the event component) with the same body. The platform's
  \<open>new URL(url)\<close> is a parameter \<open>URL\<close>: \<open>None\<close> when the constructor throws, else the
  \<open>pathname\<close> of the parsed URL.
\<close>

record repoInfo =
  owner :: string
  repo :: string

datatype urlError = TypeError | InvalidGitHubURLFormat | InvalidGitHubURL

definition pathParts :: "string \<Rightarrow> string list" where
  \<comment> \<open>\<open>pathname.split('/').filter(Boolean)\<close>\<close>
  "pathParts pathname = filter (\<lambda>part. part \<noteq> []) (splitStr CHR ''/'' pathname)"

definition extractRepoInfo_try :: "(string \<Rightarrow> string option) \<Rightarrow> string \<Rightarrow> urlError + repoInfo" where
  \<comment> \<open>the \<open>try\<close> block\<close>
  "extractRepoInfo_try URL githubUrl =
     (case URL githubUrl of
        None \<Rightarrow> Inl TypeError
      | Some pathname \<Rightarrow>
          (let parts = pathParts pathname in
           if length parts \<ge> 2 then Inr \<lparr>owner = parts ! 0, repo = parts ! 1\<rparr>
           else Inl InvalidGitHubURLFormat))"

definition extractRepoInfo :: "(string \<Rightarrow> string option) \<Rightarrow> string \<Rightarrow> urlError + repoInfo" where
  \<comment> \<open>the \<open>catch\<close> replaces whatever was thrown by \<open>Invalid GitHub URL\<close>\<close>
  "extractRepoInfo URL githubUrl =
     (case extractRepoInfo_try URL githubUrl of
        Inl e \<Rightarrow> Inl InvalidGitHubURL
      | Inr info \<Rightarrow> Inr info)"

section \<open>Commit aggregation (CommitAnalytics.tsx, processCommitData)\<close>

text \<open>
  Instants are milliseconds since the epoch. The string \<open>toISOString().split('T')[0]\<close>, the
  UTC calendar date \<open>YYYY-MM-DD\<close> of an instant, is represented by the number of that UTC day
  (days since the epoch): the two determine each other. \<open>setDate(getDate() + k)\<close> moves an
  instant by \<open>k\<close> local days, modelled as \<open>k\<close> times 24 hours (a local zone whose UTC offset
  does not change across the window). \<open>new Date()\<close> is the parameter \<open>now\<close>. The two
  \<open>toLocaleDateString\<close> renderings are parameters: \<open>dateLabel\<close> of a UTC day and
  \<open>weekdayLabel\<close> of an instant.
\<close>

definition msPerDay :: int where
  "msPerDay = 86400000"

definition isoDate :: "int \<Rightarrow> int" where
  "isoDate t = t div msPerDay"

record dateRange =
  range_from :: "int option"
  range_to :: "int option"

record trendPoint =
  trend_date :: string
  trend_commits :: nat

record contributorEntry =
  count :: nat
  avatar :: "string option"

record topContributor =
  name :: string
  contributor_commits :: nat
  contributor_avatar :: "string option"

record weekdayActivity =
  day :: string
  day_commits :: nat

record analyticsData =
  analytics_totalCommits :: nat
  commitTrend :: "trendPoint list"
  topContributors :: "topContributor list"
  recentCommits :: "commitData list"
  dailyActivity :: "weekdayActivity list"

definition countByDate :: "(int \<rightharpoonup> nat) \<Rightarrow> commitData \<Rightarrow> (int \<rightharpoonup> nat)" where
  \<comment> \<open>\<open>acc[date] = (acc[date] || 0) + 1\<close>\<close>
  "countByDate acc commit =
     (let date = isoDate (commit_author_date commit)
      in acc(date \<mapsto> (case acc date of None \<Rightarrow> 0 | Some n \<Rightarrow> n) + 1))"

function datesLoop :: "int list \<Rightarrow> int \<Rightarrow> int \<Rightarrow> int list" where
  "datesLoop dates currentDate endDate =
     (if currentDate \<le> endDate
      then datesLoop (dates @ [isoDate currentDate]) (currentDate + msPerDay) endDate
      else dates)"
  by pat_completeness auto
termination
  by (relation "measure (\<lambda>(dates, currentDate, endDate). nat (endDate - currentDate + 1))")
     (auto simp: msPerDay_def)

declare datesLoop.simps [simp del]

definition last30Days :: "int \<Rightarrow> int list" where
  \<comment> \<open>\<open>Array.from({ length: 30 }, (_, i) => ...)\<close>\<close>
  "last30Days now = map (\<lambda>i. isoDate (now - (29 - int i) * msPerDay)) [0..<30]"

definition generateDateRange :: "dateRange option \<Rightarrow> int \<Rightarrow> int list" where
  "generateDateRange dateRange now =
     (case dateRange of
        None \<Rightarrow> last30Days now
      | Some r \<Rightarrow>
          (case range_from r of
             None \<Rightarrow> last30Days now
           | Some fromDate \<Rightarrow>
               (case range_to r of
                  None \<Rightarrow> last30Days now
                | Some toDate \<Rightarrow> datesLoop [] fromDate toDate)))"

text \<open>
  An object used as a dictionary with string keys, \<open>{} as Record<string, v>\<close>: its own
  properties in the order of their creation. \<open>AList.update\<close> overwrites a key in place and
  appends a new one, as an assignment \<open>acc[k] = v\<close> does.
\<close>

type_synonym 'v jsObject = "(string \<times> 'v) list"

definition objectPrototypeKeys :: "string list" where
  \<comment> \<open>the properties every object literal inherits from \<open>Object.prototype\<close>\<close>
  "objectPrototypeKeys =
     [''constructor'', ''hasOwnProperty'', ''isPrototypeOf'', ''propertyIsEnumerable'',
      ''toLocaleString'', ''toString'', ''valueOf'', ''__proto__'', ''__defineGetter__'',
      ''__defineSetter__'', ''__lookupGetter__'', ''__lookupSetter__'']"

definition isDigit :: "char \<Rightarrow> bool" where
  "isDigit c = (48 \<le> (of_char c :: nat) \<and> (of_char c :: nat) \<le> 57)"

definition digitsValue :: "string \<Rightarrow> nat" where
  "digitsValue s = foldl (\<lambda>n c. 10 * n + (of_char c - 48)) 0 s"

definition arrayIndex :: "string \<Rightarrow> nat option" where
  \<comment> \<open>a key that is an array index: the canonical decimal string of an integer below \<open>2^32 - 1\<close>\<close>
  "arrayIndex key =
     (if key \<noteq> [] \<and> list_all isDigit key \<and> (hd key \<noteq> CHR ''0'' \<or> length key = 1)
         \<and> digitsValue key < 2 ^ 32 - 1
      then Some (digitsValue key) else None)"

definition indexOrder :: "string \<Rightarrow> nat" where
  "indexOrder key = (case arrayIndex key of None \<Rightarrow> 0 | Some n \<Rightarrow> n)"

definition objectEntries :: "'v jsObject \<Rightarrow> (string \<times> 'v) list" where
  \<comment> \<open>\<open>Object.entries\<close>: own keys that are array indices first, ascending, then the other
      keys in the order of their creation\<close>
  "objectEntries obj =
     sort_key (\<lambda>(key, v). indexOrder key) (filter (\<lambda>(key, v). arrayIndex key \<noteq> None) obj)
     @ filter (\<lambda>(key, v). arrayIndex key = None) obj"

definition contributorName :: "commitData \<Rightarrow> string" where
  \<comment> \<open>\<open>commit.author?.login || commit.commit.author.name\<close>\<close>
  "contributorName commit =
     (case author commit of
        None \<Rightarrow> commit_author_name commit
      | Some a \<Rightarrow> if login a \<noteq> [] then login a else commit_author_name commit)"

definition countContributor :: "contributorEntry jsObject \<Rightarrow> commitData \<Rightarrow> contributorEntry jsObject" where
  \<comment> \<open>\<open>acc[name]\<close> reads an own property, or else an inherited one, which is truthy; then the
      increment lands on the inherited value and \<open>acc\<close> gets no property\<close>
  "countContributor acc commit =
     (let name = contributorName commit;
          avatar = map_option avatar_url (author commit);
          acc1 = (if map_of acc name = None \<and> name \<notin> set objectPrototypeKeys
                  then AList.update name \<lparr>count = 0, avatar = avatar\<rparr> acc else acc)
      in case map_of acc1 name of
           None \<Rightarrow> acc1
         | Some entry \<Rightarrow> AList.update name (entry\<lparr>count := count entry + 1\<rparr>) acc1)"

definition countByWeekday :: "(int \<Rightarrow> string) \<Rightarrow> (string \<rightharpoonup> nat) \<Rightarrow> commitData \<Rightarrow> (string \<rightharpoonup> nat)" where
  "countByWeekday weekdayLabel acc commit =
     (let dayOfWeek = weekdayLabel (commit_author_date commit)
      in acc(dayOfWeek \<mapsto> (case acc dayOfWeek of None \<Rightarrow> 0 | Some n \<Rightarrow> n) + 1))"

definition processCommitData ::
  "(int \<Rightarrow> string) \<Rightarrow> (int \<Rightarrow> string) \<Rightarrow> dateRange option \<Rightarrow> int \<Rightarrow> commitData list \<Rightarrow> analyticsData" where
  "processCommitData dateLabel weekdayLabel dateRange now commits =
     (let commitsByDate = foldl countByDate Map.empty commits;
          dateRangeDays = generateDateRange dateRange now;
          trend = map (\<lambda>d. \<lparr>trend_date = dateLabel d,
                             trend_commits =
                               (case commitsByDate d of None \<Rightarrow> 0 | Some n \<Rightarrow> n)\<rparr>)
                    dateRangeDays;
          contributorCounts = foldl countContributor [] commits;
          top = map (\<lambda>(n, data). \<lparr>name = n, contributor_commits = count data,
                                   contributor_avatar = avatar data\<rparr>)
                  (take 5 (sort_key (\<lambda>(n, data). - int (count data))
                             (objectEntries contributorCounts)));
          dayOfWeekCounts = foldl (countByWeekday weekdayLabel) Map.empty commits;
          daily = map (\<lambda>d. \<lparr>day = d,
                             day_commits = (case dayOfWeekCounts d of None \<Rightarrow> 0 | Some n \<Rightarrow> n)\<rparr>)
                    [''Mon'', ''Tue'', ''Wed'', ''Thu'', ''Fri'', ''Sat'', ''Sun'']
      in \<lparr>analytics_totalCommits = length commits,
          commitTrend = trend,
          topContributors = top,
          recentCommits = take 10 commits,
          dailyActivity = daily\<rparr>)"

text \<open>
  The effect of the component \<open>CommitQualityAnalysis\<close> on its state \<open>metrics\<close>: the analysis
  runs only for a non-empty \<open>commits\<close> property, and a failure of \<open>extractRepoInfo\<close> is caught
  and leaves the state as it was. \<open>CommitAnalytics\<close> passes \<open>analytics.recentCommits\<close> as
  \<open>commits\<close>. The rendered score is \<open>qualityScore\<close> of the state, when there is one.
\<close>

definition commitQualityEffect ::
  "(string \<Rightarrow> string option) \<Rightarrow> string \<Rightarrow> bool \<Rightarrow> commitData list
     \<Rightarrow> qualityMetrics option \<Rightarrow> qualityMetrics option" where
  "commitQualityEffect URL githubUrl readme commits metrics =
     (if length commits > 0
      then (case extractRepoInfo URL githubUrl of
              Inl e \<Rightarrow> metrics
            | Inr info \<Rightarrow> Some (analyzeCommitQuality readme commits))
      else metrics)"

definition dashboardQuality ::
  "(string \<Rightarrow> string option) \<Rightarrow> string \<Rightarrow> bool \<Rightarrow> analyticsData
     \<Rightarrow> qualityMetrics option \<Rightarrow> qualityMetrics option" where
  "dashboardQuality URL githubUrl readme analytics metrics =
     commitQualityEffect URL githubUrl readme (recentCommits analytics) metrics"

section \<open>Roster loader (FileUpload.tsx, processExcelFile)\<close>

text \<open>
  \<open>jsonData\<close> is what \<open>XLSX.utils.sheet_to_json\<close> returned: one object per row, from column
  header to cell value. A key that is absent reads as \<open>undefined\<close>.
\<close>

datatype cell = CellString string | CellNumber rat | CellBoolean bool

type_synonym row = "string \<rightharpoonup> cell"

datatype uploadError = EmptyFileError | SchemaError | NoValidRowsError

definition truthy :: "cell option \<Rightarrow> bool" where
  "truthy v =
     (case v of
        None \<Rightarrow> False
      | Some (CellString s) \<Rightarrow> s \<noteq> []
      | Some (CellNumber n) \<Rightarrow> n \<noteq> 0
      | Some (CellBoolean b) \<Rightarrow> b)"

definition typeofString :: "cell option \<Rightarrow> bool" where
  \<comment> \<open>\<open>typeof v === 'string'\<close>\<close>
  "typeofString v = (case v of Some (CellString s) \<Rightarrow> True | _ \<Rightarrow> False)"

definition validTeam :: "row \<Rightarrow> bool" where
  "validTeam team =
     (truthy (team ''TeamName'') \<and> truthy (team ''GitHubURL'')
      \<and> typeofString (team ''TeamName'') \<and> typeofString (team ''GitHubURL''))"

definition processExcelFile :: "row list \<Rightarrow> uploadError + row list" where
  \<comment> \<open>\<open>Inl\<close>: the error handed to \<open>onError\<close>; \<open>Inr\<close>: the teams handed to \<open>onDataLoaded\<close>\<close>
  "processExcelFile jsonData =
     (case jsonData of
        [] \<Rightarrow> Inl EmptyFileError
      | firstRow # rest \<Rightarrow>
          if ''TeamName'' \<notin> dom firstRow \<or> ''GitHubURL'' \<notin> dom firstRow
          then Inl SchemaError
          else (let validTeams = filter validTeam jsonData in
                if length validTeams = 0 then Inl NoValidRowsError else Inr validTeams))"

section \<open>Credential holder (GitHubTokenManager.tsx)\<close>

datatype tokenStatus = StatusNone | StatusValid | StatusInvalid | StatusChecking

text \<open>
  The state the component acts on: its \<open>tokenStatus\<close>, the entry \<open>github_token\<close> of
  \<open>localStorage\<close>, and the value last passed to \<open>onTokenChange\<close> (the token the fetchers
  use).
\<close>

record tokenManager =
  tokenStatus :: tokenStatus
  storedToken :: "string option"
  reportedToken :: string

datatype identityCheck = ResponseOk | ResponseNotOk | FetchThrows

definition validateToken :: "identityCheck \<Rightarrow> string \<Rightarrow> tokenManager \<Rightarrow> tokenManager" where
  \<comment> \<open>the state once the request has settled; \<open>response\<close> is how it settled\<close>
  "validateToken response tokenToValidate s =
     (if trim tokenToValidate = [] then s\<lparr>tokenStatus := StatusNone\<rparr>
      else (let s1 = s\<lparr>tokenStatus := StatusChecking\<rparr> in
            case response of
              ResponseOk \<Rightarrow>
                s1\<lparr>tokenStatus := StatusValid, storedToken := Some tokenToValidate,
                   reportedToken := tokenToValidate\<rparr>
            | ResponseNotOk \<Rightarrow>
                s1\<lparr>tokenStatus := StatusInvalid, storedToken := None, reportedToken := []\<rparr>
            | FetchThrows \<Rightarrow>
                s1\<lparr>tokenStatus := StatusInvalid, storedToken := None, reportedToken := []\<rparr>))"

definition handleClearToken :: "tokenManager \<Rightarrow> tokenManager" where
  "handleClearToken s = s\<lparr>tokenStatus := StatusNone, storedToken := None, reportedToken := []\<rparr>"

section \<open>Event aggregation (processGitEvents)\<close>








section \<open>Notions the properties are stated with\<close>

subsection \<open>Messages\<close>





subsection \<open>Pattern buckets\<close>

definition containsIgnoringCase :: "string \<Rightarrow> string \<Rightarrow> bool" where
  \<comment> \<open>some substring of \<open>m\<close> is the (lower-case) keyword up to case\<close>
  "containsIgnoringCase m kw \<longleftrightarrow> (\<exists>pre w post. m = pre @ w @ post \<and> toLowerCase w = kw)"





subsection \<open>Concrete inputs\<close>

definition commitWithMessage :: "string \<Rightarrow> commitData" where
  "commitWithMessage m =
     \<lparr>sha = [], commit_author_name = [], commit_author_email = [], commit_author_date = 0,
      commit_message = m, author = None\<rparr>"

definition scenarioCommits :: "commitData list" where
  \<comment> \<open>the messages \<open>""\<close>, \<open>"fix bug"\<close> and \<open>"Add new feature\n\nDetailed body"\<close>\<close>
  "scenarioCommits =
     map commitWithMessage
       [[], ''fix bug'', ''Add new feature'' @ [CHR 0x0A, CHR 0x0A] @ ''Detailed body'']"

subsection \<open>Paths, rows and credentials\<close>

fun joinStr :: "char \<Rightarrow> string list \<Rightarrow> string" where
  "joinStr sep [] = []"
| "joinStr sep [w] = w"
| "joinStr sep (w # v # ws) = w @ sep # joinStr sep (v # ws)"

definition sampleURL :: "string \<Rightarrow> string option" where
  \<comment> \<open>a stand-in for the platform parser on the inputs of the examples: it accepts what
      starts with \<open>https://github.com\<close> and returns the rest as the path\<close>
  "sampleURL u =
     (if startsWith u ''https://github.com'' then Some (drop 18 u) else None)"

definition nonEmptyStringField :: "row \<Rightarrow> string \<Rightarrow> bool" where
  "nonEmptyStringField r key = (\<exists>s. r key = Some (CellString s) \<and> s \<noteq> [])"

definition bothNonEmptyStrings :: "row \<Rightarrow> bool" where
  "bothNonEmptyStrings r = (nonEmptyStringField r ''TeamName'' \<and> nonEmptyStringField r ''GitHubURL'')"

text \<open>
  The two conditions in the wording of the specification: a field that is present and is a
  string (the empty string included), and a first row that lacks both fields.
\<close>

definition presentStringField :: "row \<Rightarrow> string \<Rightarrow> bool" where
  "presentStringField r key = (\<exists>s. r key = Some (CellString s))"

definition bothPresentStrings :: "row \<Rightarrow> bool" where
  "bothPresentStrings r = (presentStringField r ''TeamName'' \<and> presentStringField r ''GitHubURL'')"

definition lacksBothFields :: "row \<Rightarrow> bool" where
  "lacksBothFields r = (''TeamName'' \<notin> dom r \<and> ''GitHubURL'' \<notin> dom r)"

definition teamA :: row where
  "teamA = [''TeamName'' \<mapsto> CellString ''A'', ''GitHubURL'' \<mapsto> CellString ''https://github.com/x/y'']"

definition teamB :: row where
  "teamB = [''TeamName'' \<mapsto> CellString ''B'', ''GitHubURL'' \<mapsto> CellString []]"

definition scenarioRows :: "row list" where
  "scenarioRows = [teamA, teamB]"

definition nameOnlyRow :: row where
  "nameOnlyRow = [''TeamName'' \<mapsto> CellString ''C'']"

definition storedState :: tokenManager where
  "storedState = \<lparr>tokenStatus = StatusValid, storedToken = Some ''ghp_abc'', reportedToken = ''ghp_abc''\<rparr>"

subsection \<open>Days, windows and contributors\<close>






definition firstSeen :: "'a list \<Rightarrow> 'a list" where
  \<comment> \<open>the elements in the order of their first appearance\<close>
  "firstSeen xs = rev (remdups (rev xs))"

definition enumerationOrder :: "string list \<Rightarrow> string list" where
  \<comment> \<open>keys created in the given order, as an object enumerates them\<close>
  "enumerationOrder keys =
     sort_key indexOrder (filter (\<lambda>k. arrayIndex k \<noteq> None) keys)
     @ filter (\<lambda>k. arrayIndex k = None) keys"

definition commitsBy :: "string \<Rightarrow> commitData list \<Rightarrow> nat" where
  "commitsBy n cs = length (filter (\<lambda>c. contributorName c = n) cs)"

definition ranking :: "commitData list \<Rightarrow> string list" where
  \<comment> \<open>the contributors by commit count, descending; a stable sort of the enumeration order\<close>
  "ranking cs =
     sort_key (\<lambda>n. - int (commitsBy n cs)) (enumerationOrder (firstSeen (map contributorName cs)))"

definition commitBy :: "string \<Rightarrow> commitData" where
  "commitBy n =
     \<lparr>sha = [], commit_author_name = n, commit_author_email = [], commit_author_date = 0,
      commit_message = [], author = None\<rparr>"

definition tallyOf :: "commitData list \<Rightarrow> contributorEntry jsObject \<Rightarrow> bool" where
  \<comment> \<open>the invariant of the \<open>reduce\<close> that counts contributors\<close>
  "tallyOf cs obj \<longleftrightarrow>
     map fst obj = firstSeen (map contributorName cs)
     \<and> (\<forall>(n, e)\<in>set obj. count e = commitsBy n cs)"




definition sampleAuthors :: "commitData list" where
  "sampleAuthors = map commitBy [''bob'', ''amy'', ''amy'', ''7'', ''10'']"

section \<open>Quality analysis: the loop\<close>








section \<open>Substrings, trimming and case\<close>

lemma startsWith_iff: "startsWith s sub \<longleftrightarrow> (\<exists>post. s = sub @ post)"
  by (induction s sub rule: startsWith.induct) auto

lemma includesStr_iff: "includesStr s sub \<longleftrightarrow> (\<exists>pre post. s = pre @ sub @ post)"
proof (induction s)
  case Nil
  then show ?case by (simp add: startsWith_iff)
next
  case (Cons x xs)
  show ?case
  proof
    assume "includesStr (x # xs) sub"
    then consider "startsWith (x # xs) sub" | "includesStr xs sub" by auto
    then show "\<exists>pre post. x # xs = pre @ sub @ post"
    proof cases
      case 1
      then obtain post where "x # xs = sub @ post" by (auto simp: startsWith_iff)
      then have "x # xs = [] @ sub @ post" by simp
      then show ?thesis by blast
    next
      case 2
      then obtain pre post where "xs = pre @ sub @ post" using Cons.IH by auto
      then have "x # xs = (x # pre) @ sub @ post" by simp
      then show ?thesis by blast
    qed
  next
    assume "\<exists>pre post. x # xs = pre @ sub @ post"
    then obtain pre post where eq: "x # xs = pre @ sub @ post" by auto
    show "includesStr (x # xs) sub"
    proof (cases pre)
      case Nil
      with eq have "startsWith (x # xs) sub" by (auto simp: startsWith_iff)
      then show ?thesis by simp
    next
      case (Cons p ps)
      with eq have "xs = ps @ sub @ post" by simp
      then have "includesStr xs sub" using Cons.IH by blast
      then show ?thesis by simp
    qed
  qed
qed




lemma lower_infix:
  "(\<exists>pre post. toLowerCase s = pre @ kw @ post)
     \<longleftrightarrow> (\<exists>pre w post. s = pre @ w @ post \<and> toLowerCase w = kw)"
proof
  assume "\<exists>pre post. toLowerCase s = pre @ kw @ post"
  then obtain pre post where "map toLowerChar s = pre @ kw @ post"
    by (auto simp: toLowerCase_def)
  then obtain a r where a: "s = a @ r" "map toLowerChar r = kw @ post"
    by (metis map_eq_append_conv)
  then obtain w b where "r = w @ b" "map toLowerChar w = kw"
    by (metis map_eq_append_conv)
  with a have "s = a @ w @ b \<and> toLowerCase w = kw" by (simp add: toLowerCase_def)
  then show "\<exists>pre w post. s = pre @ w @ post \<and> toLowerCase w = kw" by blast
next
  assume "\<exists>pre w post. s = pre @ w @ post \<and> toLowerCase w = kw"
  then obtain pre w post where "s = pre @ w @ post" "toLowerCase w = kw" by auto
  then have "toLowerCase s = toLowerCase pre @ kw @ toLowerCase post"
    by (simp add: toLowerCase_def)
  then show "\<exists>pre post. toLowerCase s = pre @ kw @ post" by blast
qed

lemma containsIgnoringCase_includes:
  "containsIgnoringCase m kw \<longleftrightarrow> includesStr (toLowerCase m) kw"
  by (simp only: containsIgnoringCase_def includesStr_iff lower_infix)








lemma mathRound_frac:
  assumes "0 < b"
  shows "mathRound (of_int a / of_int b) = (2 * a + b) div (2 * b)"
proof -
  have "(of_int a / of_int b + 1 / 2 :: rat) = of_int (2 * a + b) / of_int (2 * b)"
    using assms by (simp add: field_simps)
  then show ?thesis
    unfolding mathRound_def by (simp only: floor_divide_of_int_eq)
qed



lemma mathRound_numeral:
  "mathRound (numeral a / numeral b) = (2 * numeral a + numeral b) div (2 * numeral b)"
  using mathRound_frac[of "numeral b" "numeral a"] by simp

lemma scenario_metrics:
  "analyzeCommitQuality False scenarioCommits =
     \<lparr>totalCommits = 3, commitsWithDescription = 1, emptyMessages = 1, shortMessages = 1,
      averageMessageLength = 12, hasReadme = False,
      commitPatterns = \<lparr>fix_n = 1, feat_n = 1, refactor_n = 0, docs_n = 0, test_n = 0,
                        style_n = 0, other_n = 1\<rparr>\<rparr>"
  by (simp add: scenarioCommits_def commitWithMessage_def analyzeCommitQuality_def analyzeCommit_def initialTally_def
      trim_def isWhiteSpace_def toLowerCase_def toLowerChar_def categorize_def
      mathRound_numeral Let_def)






section \<open>Quality analysis: the claims\<close>





text \<open>
  C8 as stated fails: on the three messages \<open>""\<close>, \<open>"fix bug"\<close> and
  \<open>"Add new feature\n\nDetailed body"\<close> the short count is not 0, since \<open>"fix bug"\<close> has 7
  characters.
\<close>

theorem scenario_short_count_counterexample:
  "shortMessages (analyzeCommitQuality False scenarioCommits) \<noteq> 0"
  by (simp add: scenario_metrics)

text \<open>
  C8, amended. On these three messages with no README the analysis yields empty = 1,
  short = 1, described = 1, the pattern counts fix = 1 and feat = 1 (and other = 1 for the
  empty message), and the score is the formula at these values with the README term 0 and,
  the average length being 12, the length term 0: that is 23.
\<close>

theorem scenario_analysis:
  "(let m = analyzeCommitQuality False scenarioCommits in
     emptyMessages m = 1 \<and> shortMessages m = 1 \<and> commitsWithDescription m = 1
     \<and> fix_n (commitPatterns m) = 1 \<and> feat_n (commitPatterns m) = 1
     \<and> other_n (commitPatterns m) = 1
     \<and> qualityScore m = mathRound (40 * 1 / 3 + 30 * (3 - 1 - 1) / 3 + 20 * 0 + 10 * 0)
     \<and> qualityScore m = 23)"
proof -
  have "\<lfloor>(143::rat) / 6\<rfloor> = 23" by linarith
  then show ?thesis
    by (simp add: scenario_metrics qualityScore_def mathRound_def Let_def)
qed

section \<open>Locator, roster, credential and the recent-commits slice\<close>

lemma splitStr_nonempty: "splitStr sep s \<noteq> []"
  by (induction s) (auto split: list.splits)

lemma joinStr_Cons: "ws \<noteq> [] \<Longrightarrow> joinStr sep (w # ws) = w @ sep # joinStr sep ws"
  by (cases ws) simp_all

lemma joinStr_splitStr: "joinStr sep (splitStr sep s) = s"
proof (induction s)
  case Nil
  show ?case by simp
next
  case (Cons c cs)
  show ?case
  proof (cases "c = sep")
    case True
    then show ?thesis using Cons by (simp add: joinStr_Cons splitStr_nonempty)
  next
    case False
    obtain w ws where sp: "splitStr sep cs = w # ws"
      using splitStr_nonempty[of sep cs] by (cases "splitStr sep cs") auto
    have "joinStr sep ((c # w) # ws) = c # joinStr sep (w # ws)"
      by (cases ws) simp_all
    then show ?thesis using False sp Cons by simp
  qed
qed

lemma splitStr_no_sep: "w \<in> set (splitStr sep s) \<Longrightarrow> sep \<notin> set w"
  by (induction s arbitrary: w) (auto split: if_splits list.splits)

text \<open>
  C6. \<open>extractRepoInfo\<close> is a function of the URL (and of the platform's parser): it fails,
  always with the one error \<open>Invalid GitHub URL\<close>, exactly when parsing throws or the path
  has fewer than two non-empty segments, and else returns the first and the second non-empty
  segment as owner and repository. The segments are the pieces of the path between the
  slashes: joined by slashes they give the path back, and none contains a slash.
\<close>

theorem extractRepoInfo_result:
  "extractRepoInfo URL url =
     (case URL url of
        None \<Rightarrow> Inl InvalidGitHubURL
      | Some pathname \<Rightarrow>
          if length (pathParts pathname) < 2 then Inl InvalidGitHubURL
          else Inr \<lparr>owner = pathParts pathname ! 0, repo = pathParts pathname ! 1\<rparr>)
   \<and> (extractRepoInfo URL url = Inl e \<longrightarrow> e = InvalidGitHubURL)
   \<and> (url = url' \<longrightarrow> extractRepoInfo URL url = extractRepoInfo URL url')
   \<and> pathParts pathname = filter (\<lambda>part. part \<noteq> []) (splitStr CHR ''/'' pathname)
   \<and> joinStr CHR ''/'' (splitStr CHR ''/'' pathname) = pathname
   \<and> (\<forall>part\<in>set (splitStr CHR ''/'' pathname). CHR ''/'' \<notin> set part)"
  by (auto simp: extractRepoInfo_def extractRepoInfo_try_def pathParts_def Let_def
      joinStr_splitStr splitStr_no_sep split: option.splits sum.splits)

theorem extractRepoInfo_result_witness:
  "extractRepoInfo sampleURL ''https://github.com/x/y'' = Inr \<lparr>owner = ''x'', repo = ''y''\<rparr>
   \<and> extractRepoInfo sampleURL ''https://github.com/x'' = Inl InvalidGitHubURL
   \<and> extractRepoInfo sampleURL ''github.com/x/y'' = Inl InvalidGitHubURL"
  using extractRepoInfo_result[of sampleURL "''https://github.com/x/y''" InvalidGitHubURL "''https://github.com/x/y''" "''/x/y''"]
        extractRepoInfo_result[of sampleURL "''https://github.com/x''" InvalidGitHubURL "''https://github.com/x''" "''/x''"]
        extractRepoInfo_result[of sampleURL "''github.com/x/y''" InvalidGitHubURL "''github.com/x/y''" "''/x/y''"]
  by (simp add: sampleURL_def pathParts_def)

text \<open>
  C5 as stated fails twice. In the scenario itself team B has both fields present, both
  strings, yet it is dropped (its URL is the empty string): the rows kept are not those where
  both fields are present and are strings. And a first row that has \<open>TeamName\<close> but no
  \<open>GitHubURL\<close> does not lack both fields, yet the loader fails with \<open>SchemaError\<close>.
\<close>

theorem processExcelFile_counterexample:
  "processExcelFile scenarioRows \<noteq> Inr (filter bothPresentStrings scenarioRows)
   \<and> \<not> lacksBothFields nameOnlyRow
   \<and> processExcelFile [nameOnlyRow, teamA] = Inl SchemaError"
proof -
  have "bothPresentStrings teamA" "bothPresentStrings teamB"
    by (simp_all add: bothPresentStrings_def presentStringField_def teamA_def teamB_def)
  then have "filter bothPresentStrings scenarioRows = [teamA, teamB]"
    by (simp add: scenarioRows_def)
  moreover have "processExcelFile scenarioRows = Inr [teamA]"
    by (simp add: processExcelFile_def scenarioRows_def teamA_def teamB_def validTeam_def
        truthy_def typeofString_def Let_def)
  moreover have "\<not> lacksBothFields nameOnlyRow"
    by (simp add: lacksBothFields_def nameOnlyRow_def)
  moreover have "processExcelFile [nameOnlyRow, teamA] = Inl SchemaError"
    by (simp add: processExcelFile_def nameOnlyRow_def)
  ultimately show ?thesis by simp
qed

lemma validTeam_iff: "validTeam r = bothNonEmptyStrings r"
  by (auto simp: validTeam_def bothNonEmptyStrings_def nonEmptyStringField_def truthy_def
      typeofString_def split: option.splits cell.splits)

text \<open>
  C5, amended. The loader fails with \<open>EmptyFileError\<close> on zero rows; with \<open>SchemaError\<close>
  when the first row lacks at least one of \<open>TeamName\<close> and \<open>GitHubURL\<close>; otherwise it keeps
  exactly the rows in which both fields are non-empty strings, in their order, failing with
  \<open>NoValidRowsError\<close> when none is left. On the two rows of the scenario it returns the
  single team A.
\<close>

theorem processExcelFile_result:
  "processExcelFile rows =
     (if rows = [] then Inl EmptyFileError
      else if ''TeamName'' \<notin> dom (hd rows) \<or> ''GitHubURL'' \<notin> dom (hd rows)
      then Inl SchemaError
      else if filter bothNonEmptyStrings rows = [] then Inl NoValidRowsError
      else Inr (filter bothNonEmptyStrings rows))
   \<and> processExcelFile scenarioRows = Inr [teamA]"
proof -
  have v: "validTeam = bothNonEmptyStrings" by (rule ext) (rule validTeam_iff)
  have 1: "processExcelFile rows =
     (if rows = [] then Inl EmptyFileError
      else if ''TeamName'' \<notin> dom (hd rows) \<or> ''GitHubURL'' \<notin> dom (hd rows)
      then Inl SchemaError
      else if filter bothNonEmptyStrings rows = [] then Inl NoValidRowsError
      else Inr (filter bothNonEmptyStrings rows))"
    by (cases rows) (simp_all add: processExcelFile_def v Let_def)
  have 2: "processExcelFile scenarioRows = Inr [teamA]"
    by (simp add: processExcelFile_def scenarioRows_def teamA_def teamB_def validTeam_def
        truthy_def typeofString_def Let_def)
  from 1 2 show ?thesis by blast
qed

theorem processExcelFile_result_witness:
  "filter bothNonEmptyStrings scenarioRows = [teamA]
   \<and> processExcelFile [nameOnlyRow, teamA] = Inl SchemaError
   \<and> processExcelFile [] = Inl EmptyFileError
   \<and> processExcelFile [teamB] = Inl NoValidRowsError"
proof -
  have d: "''TeamName'' \<in> dom teamA" "''GitHubURL'' \<in> dom teamA"
    "''TeamName'' \<in> dom teamB" "''GitHubURL'' \<in> dom teamB"
    "''GitHubURL'' \<notin> dom nameOnlyRow"
    by (simp_all add: teamA_def teamB_def nameOnlyRow_def)
  have b: "\<not> bothNonEmptyStrings teamB"
    by (simp add: bothNonEmptyStrings_def nonEmptyStringField_def teamB_def)
  show ?thesis
    using processExcelFile_result[of scenarioRows] processExcelFile_result[of "[nameOnlyRow, teamA]"] processExcelFile_result[of "[]"] processExcelFile_result[of "[teamB]"] d b
    by (simp add: scenarioRows_def split: if_splits)
qed

text \<open>
  C7 as stated fails: validating a blank token sets the state to none but leaves the stored
  credential where it was.
\<close>

theorem validateToken_blank_counterexample:
  "storedToken (validateToken ResponseNotOk [] storedState) \<noteq> None
   \<and> tokenStatus (validateToken ResponseNotOk [] storedState) = StatusNone"
  by (simp add: validateToken_def storedState_def trim_def)

text \<open>
  C7, amended. A blank token sets the state to none and changes nothing else: the stored
  credential stays. A non-success response or a transport failure discards the stored token,
  reports the empty token and sets the state to invalid. A success response stores the
  token, reports it and sets the state to valid.
\<close>

theorem validateToken_outcomes:
  "(trim tok = [] \<longrightarrow> validateToken response tok s = s\<lparr>tokenStatus := StatusNone\<rparr>)
   \<and> (trim tok \<noteq> [] \<and> response \<noteq> ResponseOk \<longrightarrow>
        tokenStatus (validateToken response tok s) = StatusInvalid
        \<and> storedToken (validateToken response tok s) = None
        \<and> reportedToken (validateToken response tok s) = [])
   \<and> (trim tok \<noteq> [] \<and> response = ResponseOk \<longrightarrow>
        tokenStatus (validateToken response tok s) = StatusValid
        \<and> storedToken (validateToken response tok s) = Some tok
        \<and> reportedToken (validateToken response tok s) = tok)"
  by (cases response) (simp_all add: validateToken_def Let_def)

theorem validateToken_outcomes_witness:
  "storedToken (validateToken ResponseNotOk ''ghp_abc'' storedState) = None
   \<and> tokenStatus (validateToken FetchThrows ''ghp_abc'' storedState) = StatusInvalid
   \<and> storedToken (validateToken ResponseOk ''ghp_new'' storedState) = Some ''ghp_new''
   \<and> validateToken ResponseOk '' '' storedState = storedState\<lparr>tokenStatus := StatusNone\<rparr>"
proof -
  have t: "trim ''ghp_abc'' \<noteq> []" "trim ''ghp_new'' \<noteq> []" "trim '' '' = []"
    by (simp_all add: trim_def isWhiteSpace_def)
  show ?thesis
    using validateToken_outcomes[of "''ghp_abc''" ResponseNotOk storedState]
      validateToken_outcomes[of "''ghp_abc''" FetchThrows storedState]
      validateToken_outcomes[of "''ghp_new''" ResponseOk storedState]
      validateToken_outcomes[of "'' ''" ResponseOk storedState] t
    by simp
qed

lemma recentCommits_take: "recentCommits (processCommitData dl wl dr now cs) = take 10 cs"
  by (simp add: processCommitData_def Let_def)

text \<open>
  C4. The dashboard hands \<open>analytics.recentCommits\<close>, the first 10 commits of the fetched
  list, to the quality analysis. So the analysis of a fetched list is that of its first ten
  commits: two lists with the same first ten give the same metrics, commits after the tenth
  change nothing, and the metrics count at most 10 commits.
\<close>

theorem quality_uses_first_ten:
  "dashboardQuality URL url readme (processCommitData dl wl dr now cs) metrics =
     commitQualityEffect URL url readme (take 10 cs) metrics
   \<and> (take 10 cs = take 10 cs' \<longrightarrow>
        dashboardQuality URL url readme (processCommitData dl wl dr now cs) metrics =
        dashboardQuality URL url readme (processCommitData dl wl dr now cs') metrics)
   \<and> (10 \<le> length cs \<longrightarrow>
        dashboardQuality URL url readme (processCommitData dl wl dr now (cs @ later)) metrics =
        dashboardQuality URL url readme (processCommitData dl wl dr now cs) metrics)
   \<and> (dashboardQuality URL url readme (processCommitData dl wl dr now cs) None = Some m \<longrightarrow>
        m = analyzeCommitQuality readme (take 10 cs) \<and> totalCommits m \<le> 10
        \<and> qualityScore m = qualityScore (analyzeCommitQuality readme (take 10 cs)))"
  by (auto simp: dashboardQuality_def recentCommits_take commitQualityEffect_def
      analyzeCommitQuality_def Let_def split: sum.splits if_splits)

theorem quality_uses_first_ten_witness:
  "dashboardQuality sampleURL ''https://github.com/x/y'' False
     (processCommitData (\<lambda>d. []) (\<lambda>t. []) None 0
        (replicate 10 (commitWithMessage ''fix bug'') @ [commitWithMessage []])) None =
   dashboardQuality sampleURL ''https://github.com/x/y'' False
     (processCommitData (\<lambda>d. []) (\<lambda>t. []) None 0
        (replicate 10 (commitWithMessage ''fix bug''))) None"
  using quality_uses_first_ten[where cs = "replicate 10 (commitWithMessage ''fix bug'')"
      and later = "[commitWithMessage []]" and URL = sampleURL
      and url = "''https://github.com/x/y''" and readme = False and dl = "\<lambda>d. []"
      and wl = "\<lambda>t. []" and dr = None and now = 0 and metrics = None]
  by simp

section \<open>Commit trend and daily histogram\<close>



























section \<open>Contributor ranking\<close>

lemma firstSeen_snoc:
  "firstSeen (xs @ [x]) = (if x \<in> set xs then firstSeen xs else firstSeen xs @ [x])"
  by (simp add: firstSeen_def)

lemma set_firstSeen: "set (firstSeen xs) = set xs"
  by (simp add: firstSeen_def)

lemma distinct_firstSeen: "distinct (firstSeen xs)"
  by (simp add: firstSeen_def)

lemma map_insort_key:
  assumes "f x = h (p x)" "\<And>y. y \<in> set ys \<Longrightarrow> f y = h (p y)"
  shows "map p (insort_key f x ys) = insort_key h (p x) (map p ys)"
  using assms by (induction ys) auto

lemma map_sort_key:
  assumes "\<And>x. x \<in> set xs \<Longrightarrow> f x = h (p x)"
  shows "map p (sort_key f xs) = sort_key h (map p xs)"
  using assms
proof (induction xs)
  case Nil
  show ?case by simp
next
  case (Cons x xs)
  have "map p (insort_key f x (sort_key f xs)) = insort_key h (p x) (map p (sort_key f xs))"
    by (rule map_insort_key) (use Cons.prems in auto)
  then show ?case using Cons by simp
qed

lemma map_fst_filter_key: "map fst (filter (\<lambda>(k, v). P k) obj) = filter P (map fst obj)"
  by (induction obj) auto

lemma keys_objectEntries: "map fst (objectEntries obj) = enumerationOrder (map fst obj)"
proof -
  have "map fst (sort_key (\<lambda>(key, v). indexOrder key) (filter (\<lambda>(key, v). arrayIndex key \<noteq> None) obj))
      = sort_key indexOrder (map fst (filter (\<lambda>(key, v). arrayIndex key \<noteq> None) obj))"
    by (rule map_sort_key) auto
  then show ?thesis
    by (simp add: objectEntries_def enumerationOrder_def map_fst_filter_key)
qed

lemma set_objectEntries: "set (objectEntries obj) = set obj"
  by (auto simp: objectEntries_def)

lemma commitsBy_snoc:
  "commitsBy n (cs @ [c]) = commitsBy n cs + (if contributorName c = n then 1 else 0)"
  by (simp add: commitsBy_def)

lemma commitsBy_zero: "n \<notin> set (map contributorName cs) \<Longrightarrow> commitsBy n cs = 0"
  by (induction cs) (auto simp: commitsBy_def)

lemma map_of_key: "n \<in> set (map fst obj) \<Longrightarrow> \<exists>e. map_of obj n = Some e \<and> (n, e) \<in> set obj"
  by (induction obj) auto

lemma update_existing:
  assumes "distinct (map fst obj)"
  shows "set (AList.update n e obj) = {(k, v). (k, v) \<in> set obj \<and> k \<noteq> n} \<union> {(n, e)}"
  using assms by (induction obj) (auto simp: image_iff)

lemma update_absent: "n \<notin> set (map fst obj) \<Longrightarrow> AList.update n v obj = obj @ [(n, v)]"
  by (induction obj) auto

lemma step_absent:
  assumes "contributorName c \<notin> set (map fst obj)" "contributorName c \<notin> set objectPrototypeKeys"
  shows "countContributor obj c =
        obj @ [(contributorName c, \<lparr>count = 1, avatar = map_option avatar_url (author c)\<rparr>)]"
proof -
  have none: "map_of obj (contributorName c) = None"
    using assms(1) by (simp add: map_of_eq_None_iff)
  have "countContributor obj c =
      AList.update (contributorName c) \<lparr>count = 1, avatar = map_option avatar_url (author c)\<rparr> obj"
    using none assms(2) by (simp add: countContributor_def Let_def update_conv')
  then show ?thesis
    by (simp only: update_absent[OF assms(1)])
qed

lemma step_present:
  "map_of obj (contributorName c) = Some e \<Longrightarrow>
   countContributor obj c = AList.update (contributorName c) (e\<lparr>count := count e + 1\<rparr>) obj"
  by (simp add: countContributor_def Let_def)

lemma update_present_set:
  assumes "distinct (map fst obj)" "(k, v) \<in> set (AList.update n e obj)"
  shows "(k = n \<and> v = e) \<or> (k \<noteq> n \<and> (k, v) \<in> set obj)"
  using assms
proof (induction obj)
  case Nil
  then show ?case by simp
next
  case (Cons p ps)
  show ?case
  proof (cases "fst p = n")
    case True
    then have "n \<notin> fst ` set ps" using Cons.prems(1) by auto
    then show ?thesis using True Cons.prems(2) by (cases p) force
  next
    case False
    then show ?thesis using Cons by (cases p) auto
  qed
qed

lemma countContributor_step:
  assumes inv: "tallyOf cs obj" and ok: "contributorName c \<notin> set objectPrototypeKeys"
  shows "tallyOf (cs @ [c]) (countContributor obj c)"
proof -
  let ?n = "contributorName c"
  have keys: "map fst obj = firstSeen (map contributorName cs)"
    and cnt: "\<And>k e. (k, e) \<in> set obj \<Longrightarrow> count e = commitsBy k cs"
    using inv by (auto simp: tallyOf_def)
  have dist: "distinct (map fst obj)" by (simp add: keys distinct_firstSeen)
  show ?thesis
  proof (cases "?n \<in> set (map contributorName cs)")
    case True
    then have inkeys: "?n \<in> set (map fst obj)" by (simp only: keys set_firstSeen)
    from map_of_key[OF inkeys] obtain e where e: "map_of obj ?n = Some e" "(?n, e) \<in> set obj"
      by auto
    have step: "countContributor obj c = AList.update ?n (e\<lparr>count := count e + 1\<rparr>) obj"
      using e(1) by (rule step_present)
    have k: "map fst (countContributor obj c) = firstSeen (map contributorName (cs @ [c]))"
      using True inkeys by (simp add: step update_keys keys firstSeen_snoc)
    have "count v = commitsBy k (cs @ [c])" if "(k, v) \<in> set (countContributor obj c)" for k v
    proof -
      from that have "(k = ?n \<and> v = e\<lparr>count := count e + 1\<rparr>) \<or> (k \<noteq> ?n \<and> (k, v) \<in> set obj)"
        unfolding step by (rule update_present_set[OF dist])
      then show ?thesis
      proof
        assume "k = ?n \<and> v = e\<lparr>count := count e + 1\<rparr>"
        then show ?thesis using cnt[OF e(2)] by (simp add: commitsBy_snoc)
      next
        assume "k \<noteq> ?n \<and> (k, v) \<in> set obj"
        then show ?thesis using cnt[of k v] by (auto simp: commitsBy_snoc)
      qed
    qed
    with k show ?thesis unfolding tallyOf_def by blast
  next
    case False
    then have nk: "?n \<notin> set (map fst obj)" by (simp add: keys set_firstSeen)
    have step: "countContributor obj c =
        obj @ [(?n, \<lparr>count = 1, avatar = map_option avatar_url (author c)\<rparr>)]"
      using nk ok by (rule step_absent)
    have k: "map fst (countContributor obj c) = firstSeen (map contributorName (cs @ [c]))"
      using False by (simp add: step keys firstSeen_snoc)
    have "count v = commitsBy k (cs @ [c])" if "(k, v) \<in> set (countContributor obj c)" for k v
    proof (cases "(k, v) \<in> set obj")
      case True
      then have "k \<in> set (map fst obj)" by force
      then have "k \<noteq> ?n" using nk by blast
      then show ?thesis using cnt[OF True] by (auto simp: commitsBy_snoc)
    next
      case f: False
      then have "k = ?n" "v = \<lparr>count = 1, avatar = map_option avatar_url (author c)\<rparr>"
        using that by (auto simp: step)
      then show ?thesis using commitsBy_zero[OF False] by (simp add: commitsBy_snoc)
    qed
    with k show ?thesis unfolding tallyOf_def by blast
  qed
qed

lemma foldl_countContributor:
  assumes "\<forall>c\<in>set cs. contributorName c \<notin> set objectPrototypeKeys"
  shows "tallyOf cs (foldl countContributor [] cs)"
  using assms
proof (induction cs rule: rev_induct)
  case Nil
  show ?case by (simp add: tallyOf_def firstSeen_def)
next
  case (snoc c cs)
  then have "tallyOf cs (foldl countContributor [] cs)" by simp
  then have "tallyOf (cs @ [c]) (countContributor (foldl countContributor [] cs) c)"
    by (rule countContributor_step) (use snoc.prems in simp)
  then show ?case by simp
qed

lemma filter_enumerationOrder:
  "filter (\<lambda>n. arrayIndex n = None) (enumerationOrder xs) = filter (\<lambda>n. arrayIndex n = None) xs"
proof -
  have "filter (\<lambda>n. arrayIndex n = None) (filter (\<lambda>k. arrayIndex k \<noteq> None) xs) = []"
    by (induction xs) auto
  then have "filter (\<lambda>n. arrayIndex n = None) (sort_key indexOrder (filter (\<lambda>k. arrayIndex k \<noteq> None) xs)) = []"
    by (simp only: filter_sort sort_key_simps)
  then show ?thesis by (simp add: enumerationOrder_def)
qed

lemma enumerationOrder_plain:
  "\<forall>n\<in>set xs. arrayIndex n = None \<Longrightarrow> enumerationOrder xs = xs"
  by (simp add: enumerationOrder_def filter_empty_conv)

lemma set_enumerationOrder: "set (enumerationOrder xs) = set xs"
  by (auto simp: enumerationOrder_def)

lemma distinct_enumerationOrder: "distinct xs \<Longrightarrow> distinct (enumerationOrder xs)"
  by (auto simp: enumerationOrder_def)

lemma ranking_ties:
  "filter (\<lambda>n. commitsBy n cs = k) (ranking cs) =
     filter (\<lambda>n. commitsBy n cs = k) (enumerationOrder (firstSeen (map contributorName cs)))"
proof -
  have eq: "(\<lambda>n. - int (commitsBy n cs) = - int k) = (\<lambda>n. commitsBy n cs = k)"
    by (rule ext) simp
  show ?thesis
    unfolding ranking_def
    using sort_key_stable[of "\<lambda>n. - int (commitsBy n cs)" "- int k"
        "enumerationOrder (firstSeen (map contributorName cs))"]
    by (simp only: eq)
qed

lemma ranking_ties_first_seen:
  "filter (\<lambda>n. commitsBy n cs = k \<and> arrayIndex n = None) (ranking cs) =
     filter (\<lambda>n. commitsBy n cs = k \<and> arrayIndex n = None) (firstSeen (map contributorName cs))"
proof -
  have "filter (\<lambda>n. commitsBy n cs = k \<and> arrayIndex n = None) (ranking cs) =
      filter (\<lambda>n. arrayIndex n = None) (filter (\<lambda>n. commitsBy n cs = k) (ranking cs))"
    by (simp add: conj_commute)
  also have "\<dots> = filter (\<lambda>n. commitsBy n cs = k)
      (filter (\<lambda>n. arrayIndex n = None) (enumerationOrder (firstSeen (map contributorName cs))))"
    by (simp add: ranking_ties conj_commute)
  also have "\<dots> = filter (\<lambda>n. commitsBy n cs = k \<and> arrayIndex n = None)
      (firstSeen (map contributorName cs))"
    by (simp add: filter_enumerationOrder conj_commute)
  finally show ?thesis .
qed

lemma ranking_sorted: "sorted_wrt (\<ge>) (map (\<lambda>n. commitsBy n cs) (ranking cs))"
proof -
  have "sorted (map (\<lambda>n. - int (commitsBy n cs)) (ranking cs))"
    unfolding ranking_def by (rule sorted_sort_key)
  then show ?thesis
    by (simp add: sorted_wrt_map)
qed

lemma ranking_set: "set (ranking cs) = contributorName ` set cs" "distinct (ranking cs)"
  by (simp_all add: ranking_def set_enumerationOrder set_firstSeen distinct_enumerationOrder
      distinct_firstSeen)

lemma sorted_entries:
  assumes "tallyOf cs obj"
  shows "map fst (sort_key (\<lambda>(n, data). - int (count data)) (objectEntries obj)) = ranking cs"
    and "\<forall>(n, e)\<in>set (sort_key (\<lambda>(n, data). - int (count data)) (objectEntries obj)).
            count e = commitsBy n cs"
proof -
  have keys: "map fst obj = firstSeen (map contributorName cs)"
    and cnt: "\<And>k e. (k, e) \<in> set obj \<Longrightarrow> count e = commitsBy k cs"
    using assms by (auto simp: tallyOf_def)
  have "map fst (sort_key (\<lambda>(n, data). - int (count data)) (objectEntries obj)) =
      sort_key (\<lambda>n. - int (commitsBy n cs)) (map fst (objectEntries obj))"
    by (rule map_sort_key) (auto simp: set_objectEntries cnt)
  then show "map fst (sort_key (\<lambda>(n, data). - int (count data)) (objectEntries obj)) = ranking cs"
    by (simp add: keys_objectEntries keys ranking_def)
  show "\<forall>(n, e)\<in>set (sort_key (\<lambda>(n, data). - int (count data)) (objectEntries obj)).
            count e = commitsBy n cs"
    by (auto simp: set_objectEntries cnt)
qed

lemma topContributors_eq:
  "topContributors (processCommitData dl wl dr now cs) =
     map (\<lambda>(n, data). \<lparr>name = n, contributor_commits = count data,
                         contributor_avatar = avatar data\<rparr>)
       (take 5 (sort_key (\<lambda>(n, data). - int (count data))
                  (objectEntries (foldl countContributor [] cs))))"
  by (simp add: processCommitData_def Let_def)

lemma map_take_pairs:
  assumes "\<forall>(n, e)\<in>set xs. g e = h n"
  shows "map (\<lambda>(n, e). g e) (take m xs) = map h (take m (map fst xs))"
  using assms by (induction xs arbitrary: m) (auto simp: take_Cons split: nat.splits)

lemma inherited_name_not_counted:
  "topContributors (processCommitData dl wl dr now [commitBy ''constructor'']) = []"
  by (simp add: topContributors_eq countContributor_def contributorName_def commitBy_def
      objectPrototypeKeys_def objectEntries_def Let_def)

text \<open>
  C9 as stated fails: with one commit by \<open>b\<close> and then one by \<open>7\<close>, the two tie, \<open>b\<close> is seen
  first, and the list has \<open>7\<close> first.
\<close>

theorem contributor_tie_counterexample:
  "map name (topContributors (processCommitData (\<lambda>d. []) (\<lambda>t. []) None 0
      [commitBy ''b'', commitBy ''7''])) = [''7'', ''b'']
   \<and> map contributor_commits (topContributors (processCommitData (\<lambda>d. []) (\<lambda>t. []) None 0
      [commitBy ''b'', commitBy ''7''])) = [1, 1]
   \<and> map contributorName [commitBy ''b'', commitBy ''7''] = [''b'', ''7'']"
  by (simp add: topContributors_eq countContributor_def contributorName_def commitBy_def
      objectPrototypeKeys_def objectEntries_def arrayIndex_def indexOrder_def isDigit_def
      digitsValue_def Let_def)

text \<open>
  C9, amended. For a commit sequence in which no contributor is named like a property that
  objects inherit (\<open>constructor\<close>, \<open>toString\<close>, ...), the contributor list is the first five
  of the ranking: every contributor once, with the number of their commits, by that number
  descending. Contributors with equal numbers stand in the order in which the counting
  object enumerates its keys: names that are array indices (\<open>"7"\<close>, \<open>"10"\<close>) first, by
  ascending value, then the other names by first appearance. So among names that are not
  array indices ties are broken by first appearance, and when no name is an array index the
  enumeration order is the order of first appearance.
\<close>

theorem contributor_ranking:
  assumes "\<forall>c\<in>set cs. contributorName c \<notin> set objectPrototypeKeys"
  shows "map name (topContributors (processCommitData dl wl dr now cs)) = take 5 (ranking cs)
   \<and> map contributor_commits (topContributors (processCommitData dl wl dr now cs)) =
       map (\<lambda>n. commitsBy n cs) (take 5 (ranking cs))
   \<and> length (topContributors (processCommitData dl wl dr now cs)) \<le> 5
   \<and> sorted_wrt (\<ge>) (map (\<lambda>n. commitsBy n cs) (ranking cs))
   \<and> distinct (ranking cs) \<and> set (ranking cs) = contributorName ` set cs
   \<and> filter (\<lambda>n. commitsBy n cs = k) (ranking cs) =
       filter (\<lambda>n. commitsBy n cs = k) (enumerationOrder (firstSeen (map contributorName cs)))
   \<and> filter (\<lambda>n. commitsBy n cs = k \<and> arrayIndex n = None) (ranking cs) =
       filter (\<lambda>n. commitsBy n cs = k \<and> arrayIndex n = None) (firstSeen (map contributorName cs))
   \<and> ((\<forall>c\<in>set cs. arrayIndex (contributorName c) = None) \<longrightarrow>
        enumerationOrder (firstSeen (map contributorName cs)) = firstSeen (map contributorName cs))"
proof -
  let ?S = "sort_key (\<lambda>(n, data). - int (count data)) (objectEntries (foldl countContributor [] cs))"
  have t: "tallyOf cs (foldl countContributor [] cs)"
    using assms by (rule foldl_countContributor)
  have keys: "map fst ?S = ranking cs" and cnt: "\<forall>(n, e)\<in>set ?S. count e = commitsBy n cs"
    using sorted_entries[OF t] by blast+
  have n: "map name (topContributors (processCommitData dl wl dr now cs)) = take 5 (ranking cs)"
    by (simp add: topContributors_eq comp_def case_prod_unfold take_map[symmetric] keys[symmetric])
  have "map contributor_commits (topContributors (processCommitData dl wl dr now cs)) =
      map (\<lambda>(n, e). count e) (take 5 ?S)"
    by (simp add: topContributors_eq comp_def case_prod_unfold)
  also have "\<dots> = map (\<lambda>n. commitsBy n cs) (take 5 (map fst ?S))"
    using cnt by (rule map_take_pairs)
  finally have c: "map contributor_commits (topContributors (processCommitData dl wl dr now cs)) =
       map (\<lambda>n. commitsBy n cs) (take 5 (ranking cs))"
    by (simp only: keys)
  have l: "length (topContributors (processCommitData dl wl dr now cs)) \<le> 5"
    by (simp add: topContributors_eq)
  have p: "(\<forall>c\<in>set cs. arrayIndex (contributorName c) = None) \<longrightarrow>
        enumerationOrder (firstSeen (map contributorName cs)) = firstSeen (map contributorName cs)"
    by (auto intro!: enumerationOrder_plain simp: set_firstSeen)
  show ?thesis
    using n c l ranking_sorted[of cs] ranking_set[of cs] ranking_ties[of cs k]
      ranking_ties_first_seen[of cs k] p
    by blast
qed

theorem contributor_ranking_witness:
  "map name (topContributors (processCommitData (\<lambda>d. []) (\<lambda>t. []) None 0 sampleAuthors)) =
     [''amy'', ''7'', ''10'', ''bob'']
   \<and> map contributor_commits
       (topContributors (processCommitData (\<lambda>d. []) (\<lambda>t. []) None 0 sampleAuthors)) =
     [2, 1, 1, 1]"
proof -
  have names: "map contributorName sampleAuthors = [''bob'', ''amy'', ''amy'', ''7'', ''10'']"
    by (simp add: sampleAuthors_def commitBy_def contributorName_def)
  have ok: "\<forall>c\<in>set sampleAuthors. contributorName c \<notin> set objectPrototypeKeys"
    by (simp add: sampleAuthors_def commitBy_def contributorName_def objectPrototypeKeys_def)
  have by_name: "commitsBy n sampleAuthors = length (filter (\<lambda>m. m = n) (map contributorName sampleAuthors))" for n
    by (simp add: commitsBy_def filter_map comp_def)
  have idx: "arrayIndex ''7'' = Some 7" "arrayIndex ''10'' = Some 10"
    "arrayIndex ''bob'' = None" "arrayIndex ''amy'' = None"
    by (simp_all add: arrayIndex_def isDigit_def digitsValue_def)
  have r: "ranking sampleAuthors = [''amy'', ''7'', ''10'', ''bob'']"
    by (simp add: ranking_def enumerationOrder_def firstSeen_def names by_name idx indexOrder_def)
  show ?thesis
    using contributor_ranking[OF ok, of "\<lambda>d. []" "\<lambda>t. []" None 0 0]
    by (simp add: r by_name names)
qed

end
